theory Spec2Isabelle
  imports Complex_Main
begin

section \<open>Wall-clock instants in the Eastern zone\<close>

text \<open>
  Every instant the scheduling code handles is obtained from \<^verbatim>\<open>datetime.now(ET)\<close> and
  then changed only by \<^verbatim>\<open>replace\<close> and by adding a \<^verbatim>\<open>timedelta\<close>. Both keep the
  \<^verbatim>\<open>tzinfo\<close> object of the reading, and Python adds a \<^verbatim>\<open>timedelta\<close> to the wall-clock
  fields without consulting the zone. Two instants with the same \<^verbatim>\<open>tzinfo\<close> are compared
  field by field. An instant is therefore modelled by its wall-clock fields.

  The calendar date is kept as its proleptic Gregorian ordinal (\<^verbatim>\<open>date.toordinal()\<close>,
  day 1 is Monday 0001-01-01), which is what Python itself uses for \<^verbatim>\<open>weekday()\<close> and
  for \<^verbatim>\<open>timedelta\<close> addition. The fields of a \<^verbatim>\<open>datetime\<close> are never negative, so they
  are natural numbers.
\<close>

record datetime =
  ordinal :: nat
  hour :: nat
  minute :: nat
  second :: nat
  microsecond :: nat

datatype py_error = OverflowError | ZeroDivisionError | DiscordException

text \<open>The largest ordinal a \<^verbatim>\<open>date\<close> can hold: 9999-12-31.\<close>

definition MAXORDINAL :: nat where
  "MAXORDINAL = 3652059"

text \<open>The values the constructor of \<^verbatim>\<open>datetime\<close> accepts.\<close>

definition valid_datetime :: "datetime \<Rightarrow> bool" where
  "valid_datetime d \<longleftrightarrow>
     1 \<le> ordinal d \<and> ordinal d \<le> MAXORDINAL \<and> hour d < 24 \<and> minute d < 60 \<and>
     second d < 60 \<and> microsecond d < 1000000"

text \<open>\<^verbatim>\<open>weekday()\<close>: Monday is 0, Sunday is 6.\<close>

definition weekday :: "datetime \<Rightarrow> nat" where
  "weekday d = (ordinal d + 6) mod 7"

text \<open>
  \<^verbatim>\<open>dt + timedelta(days=days, minutes=minutes)\<close>. The seconds of the day and the
  added minutes are summed, the whole days carried into the ordinal, and a date beyond
  year 9999 raises \<^verbatim>\<open>OverflowError\<close>.
\<close>

definition plus_timedelta :: "datetime \<Rightarrow> nat \<Rightarrow> nat \<Rightarrow> py_error + datetime" where
  "plus_timedelta dt days minutes =
     (let secs = hour dt * 3600 + minute dt * 60 + second dt + minutes * 60;
          day = ordinal dt + days + secs div 86400;
          rem = secs mod 86400
      in if 0 < day \<and> day \<le> MAXORDINAL
         then Inr \<lparr>ordinal = day, hour = rem div 3600, minute = rem mod 3600 div 60,
                   second = rem mod 60, microsecond = microsecond dt\<rparr>
         else Inl OverflowError)"

text \<open>\<^verbatim>\<open>a < b\<close> on two instants with the same \<^verbatim>\<open>tzinfo\<close>: lexicographic on the fields.\<close>

definition dt_less :: "datetime \<Rightarrow> datetime \<Rightarrow> bool" where
  "dt_less a b \<longleftrightarrow>
     ordinal a < ordinal b \<or> (ordinal a = ordinal b \<and>
       (hour a < hour b \<or> (hour a = hour b \<and>
         (minute a < minute b \<or> (minute a = minute b \<and>
           (second a < second b \<or> (second a = second b \<and>
             microsecond a < microsecond b)))))))"

section \<open>Trading-calendar evaluator\<close>

text \<open>\<^verbatim>\<open>is_trading_hours\<close>, with the reading of \<^verbatim>\<open>datetime.now(ET)\<close> as \<open>now\<close>.\<close>

definition is_trading_hours :: "datetime \<Rightarrow> bool" where
  "is_trading_hours now =
     (if weekday now > 4 then False
      else 4 \<le> hour now \<and> hour now < 20)"

section \<open>Interval aligner\<close>

text \<open>\<^verbatim>\<open>INTERVAL_PRESETS\<close>: the minutes of the presets 15m, 30m, 1h, 2h and 4h.\<close>

definition INTERVAL_PRESETS :: "nat set" where
  "INTERVAL_PRESETS = {15, 30, 60, 120, 240}"

text \<open>
  The loop \<^verbatim>\<open>while next_time.weekday() > 4: next_time += timedelta(days=1)\<close>.
  Each round moves the date forward and the date is bounded, so the loop ends.
\<close>

function skip_weekends :: "datetime \<Rightarrow> py_error + datetime" where
  "skip_weekends next_time =
     (if weekday next_time > 4
      then (case plus_timedelta next_time 1 0 of
              Inl e \<Rightarrow> Inl e
            | Inr t \<Rightarrow> skip_weekends t)
      else Inr next_time)"
  by pat_completeness auto
termination
proof (relation "measure (\<lambda>d. Suc MAXORDINAL - ordinal d)")
  show "wf (measure (\<lambda>d. Suc MAXORDINAL - ordinal d))"
    by simp
next
  fix next_time t :: datetime
  assume "plus_timedelta next_time 1 0 = Inr t"
  then have "ordinal next_time < ordinal t" and "ordinal t \<le> MAXORDINAL"
    by (auto simp: plus_timedelta_def Let_def split: if_splits)
  then have "Suc MAXORDINAL - ordinal t < Suc MAXORDINAL - ordinal next_time"
    by arith
  then show "(t, next_time) \<in> measure (\<lambda>d. Suc MAXORDINAL - ordinal d)"
    by simp
qed

text \<open>
  \<^verbatim>\<open>get_next_interval_time\<close>, with the reading of \<^verbatim>\<open>datetime.now(ET)\<close> as \<open>now\<close>.
  \<^verbatim>\<open>//\<close> by zero raises \<^verbatim>\<open>ZeroDivisionError\<close>.
\<close>

definition get_next_interval_time :: "nat \<Rightarrow> datetime \<Rightarrow> py_error + datetime" where
  "get_next_interval_time interval_minutes now =
     (if interval_minutes = 0 then Inl ZeroDivisionError
      else
        let minutes_since_midnight = hour now * 60 + minute now;
            intervals_passed = minutes_since_midnight div interval_minutes;
            next_interval_minutes = (intervals_passed + 1) * interval_minutes
        in case plus_timedelta (now\<lparr>hour := 0, minute := 0, second := 0, microsecond := 0\<rparr>)
                  0 next_interval_minutes of
             Inl e \<Rightarrow> Inl e
           | Inr next_time \<Rightarrow>
               if hour next_time \<ge> 20
               then (case plus_timedelta (next_time\<lparr>hour := 4, minute := 0\<rparr>) 1 0 of
                       Inl e \<Rightarrow> Inl e
                     | Inr rolled \<Rightarrow> skip_weekends rolled)
               else Inr next_time)"

text \<open>
  The value of the local variable \<^verbatim>\<open>next_interval_minutes\<close> of
  \<^verbatim>\<open>get_next_interval_time\<close>: the minutes from the midnight of \<open>now\<close> to the aligned
  candidate.
\<close>

definition next_interval_minutes :: "nat \<Rightarrow> datetime \<Rightarrow> nat" where
  "next_interval_minutes interval_minutes now =
     ((hour now * 60 + minute now) div interval_minutes + 1) * interval_minutes"

text \<open>The days the weekend loop adds to a date whose weekday is \<open>w\<close>.\<close>

definition weekend_shift :: "nat \<Rightarrow> nat" where
  "weekend_shift w = (if w = 5 then 2 else if w = 6 then 1 else 0)"

subsection \<open>Concrete instants\<close>

text \<open>
  Wednesday 2024-01-03 has ordinal 738888, Friday 2024-01-05 has 738890, Saturday
  2024-01-06 has 738891 and Monday 2024-01-08 has 738893.
\<close>

definition wed_0400 :: datetime where
  "wed_0400 = \<lparr>ordinal = 738888, hour = 4, minute = 0, second = 0, microsecond = 0\<rparr>"

definition wed_1000 :: datetime where
  "wed_1000 = \<lparr>ordinal = 738888, hour = 10, minute = 0, second = 0, microsecond = 0\<rparr>"

definition wed_2000 :: datetime where
  "wed_2000 = \<lparr>ordinal = 738888, hour = 20, minute = 0, second = 0, microsecond = 0\<rparr>"

definition fri_1930 :: datetime where
  "fri_1930 = \<lparr>ordinal = 738890, hour = 19, minute = 30, second = 12, microsecond = 5\<rparr>"

definition sat_1000 :: datetime where
  "sat_1000 = \<lparr>ordinal = 738891, hour = 10, minute = 0, second = 0, microsecond = 0\<rparr>"

definition sat_1100 :: datetime where
  "sat_1100 = \<lparr>ordinal = 738891, hour = 11, minute = 0, second = 0, microsecond = 0\<rparr>"

definition mon_0400 :: datetime where
  "mon_0400 = \<lparr>ordinal = 738893, hour = 4, minute = 0, second = 0, microsecond = 0\<rparr>"

section \<open>Quote cache\<close>

text \<open>
  The dictionary \<^verbatim>\<open>_fetch_stock_data_raw\<close> returns. The cache and the update cycle pass it
  on without computing with its numbers, which are reals here.
\<close>

record quote =
  ticker :: string
  price :: real
  change :: real
  change_percent :: real
  year_high :: "real option"
  year_low :: "real option"
  fifty_two_week_context :: "string option"
  extended_price :: "real option"
  extended_label :: "string option"
  market_cap :: "real option"
  pe_ratio :: "real option"

datatype channel = Channel int

text \<open>
  What \<^verbatim>\<open>create_stock_embed\<close> builds: the Eastern-time reading its title is formatted
  from, and the description.
\<close>

record embed =
  title_time :: datetime
  description :: string

text \<open>
  The outside world, as the answers it gives: the \<open>k\<close>-th reading of \<^verbatim>\<open>time.time()\<close>,
  the result of the \<open>k\<close>-th call of \<^verbatim>\<open>_fetch_stock_data_raw\<close> (which turns every
  failure into \<^verbatim>\<open>None\<close>), the channel \<^verbatim>\<open>bot.get_channel\<close> resolves an id to, whether
  the \<open>k\<close>-th \<^verbatim>\<open>channel.send\<close> raises, and the text the loop of
  \<^verbatim>\<open>create_stock_embed\<close> formats for one quote (number formatting is not modelled).
\<close>

record env =
  time_time :: "nat \<Rightarrow> real"
  fetch_stock_data_raw :: "nat \<Rightarrow> string \<Rightarrow> quote option"
  get_channel :: "int \<Rightarrow> channel option"
  send_raises :: "nat \<Rightarrow> bool"
  format_line :: "quote \<Rightarrow> string"

text \<open>
  The mutable state: the global \<^verbatim>\<open>_cache\<close>, and the log of what the program has asked
  of the outside (clock readings taken, tickers fetched, embeds sent).
\<close>

record world =
  cache :: "string \<rightharpoonup> quote \<times> real"
  clock_reads :: nat
  fetch_calls :: "string list"
  send_calls :: "(channel \<times> embed) list"

definition CACHE_TTL :: real where
  "CACHE_TTL = 60"

text \<open>
  \<^verbatim>\<open>str.upper()\<close> on the ASCII letters, which is what ticker symbols are made of. Other
  characters are left as they are.
\<close>

definition upper_char :: "char \<Rightarrow> char" where
  "upper_char c =
     (if 97 \<le> (of_char c :: nat) \<and> (of_char c :: nat) \<le> 122
      then char_of ((of_char c :: nat) - 32) else c)"

definition upper :: "string \<Rightarrow> string" where
  "upper s = map upper_char s"

definition call_time_time :: "env \<Rightarrow> world \<Rightarrow> real \<times> world" where
  "call_time_time e w = (time_time e (clock_reads w), w\<lparr>clock_reads := Suc (clock_reads w)\<rparr>)"

definition call_fetch_stock_data_raw :: "env \<Rightarrow> string \<Rightarrow> world \<Rightarrow> quote option \<times> world" where
  "call_fetch_stock_data_raw e t w =
     (fetch_stock_data_raw e (length (fetch_calls w)) t, w\<lparr>fetch_calls := fetch_calls w @ [t]\<rparr>)"

text \<open>
  The tail of \<^verbatim>\<open>get_cached_stock\<close> from the comment \<^verbatim>\<open># Fetch fresh data\<close> on. The
  dictionary of a successful fetch is never empty, so \<^verbatim>\<open>if data:\<close> tests for
  \<^verbatim>\<open>None\<close>.
\<close>

definition fetch_fresh :: "env \<Rightarrow> string \<Rightarrow> world \<Rightarrow> quote option \<times> world" where
  "fetch_fresh e t w =
     (case call_fetch_stock_data_raw e t w of
        (None, w1) \<Rightarrow> (None, w1)
      | (Some data, w1) \<Rightarrow>
          (case call_time_time e w1 of
             (now, w2) \<Rightarrow> (Some data, w2\<lparr>cache := (cache w2)(t \<mapsto> (data, now))\<rparr>)))"

definition get_cached_stock :: "env \<Rightarrow> string \<Rightarrow> world \<Rightarrow> quote option \<times> world" where
  "get_cached_stock e t0 w =
     (let t = upper t0
      in case cache w t of
           Some (data, ts) \<Rightarrow>
             (case call_time_time e w of
                (now, w1) \<Rightarrow>
                  if now - ts < CACHE_TTL then (Some data, w1)
                  else fetch_fresh e t w1)
         | None \<Rightarrow> fetch_fresh e t w)"

definition get_stock_data :: "env \<Rightarrow> string \<Rightarrow> world \<Rightarrow> quote option \<times> world" where
  "get_stock_data e t w = get_cached_stock e t w"

section \<open>Update executor\<close>

text \<open>The result of \<^verbatim>\<open>load_config()\<close>.\<close>

record config =
  channel_id :: "int option"
  stocks :: "string list"
  interval_minutes :: nat

fun fetch_all_stocks :: "env \<Rightarrow> string list \<Rightarrow> world \<Rightarrow> quote option list \<times> world" where
  "fetch_all_stocks e [] w = ([], w)"
| "fetch_all_stocks e (t # ts) w =
     (case get_stock_data e t w of
        (data, w1) \<Rightarrow>
          (case fetch_all_stocks e ts w1 of
             (stocks_data, w2) \<Rightarrow> (data # stocks_data, w2)))"

text \<open>\<^verbatim>\<open>"\n\n".join(lines)\<close>.\<close>

fun join_lines :: "string list \<Rightarrow> string" where
  "join_lines [] = []"
| "join_lines [l] = l"
| "join_lines (l # k # ls) = l @ [CHR 0x0A, CHR 0x0A] @ join_lines (k # ls)"

text \<open>The loop of \<^verbatim>\<open>create_stock_embed\<close>: entries that are \<^verbatim>\<open>None\<close> are skipped.\<close>

fun embed_lines :: "env \<Rightarrow> quote option list \<Rightarrow> string list" where
  "embed_lines e [] = []"
| "embed_lines e (None # ds) = embed_lines e ds"
| "embed_lines e (Some data # ds) = format_line e data # embed_lines e ds"

definition create_stock_embed :: "env \<Rightarrow> datetime \<Rightarrow> quote option list \<Rightarrow> embed" where
  "create_stock_embed e now_et stocks_data =
     (if stocks_data = []
      then \<lparr>title_time = now_et, description = ''No stock data available.''\<rparr>
      else
        let lines = embed_lines e stocks_data
        in \<lparr>title_time = now_et,
             description = (if lines \<noteq> [] then join_lines lines else ''No valid stock data.'')\<rparr>)"

text \<open>
  \<^verbatim>\<open>await channel.send(embed=embed)\<close>: the call is logged, and an exception of the
  chat library leaves the function that awaits it.
\<close>

definition channel_send :: "env \<Rightarrow> channel \<Rightarrow> embed \<Rightarrow> world \<Rightarrow> py_error option \<times> world" where
  "channel_send e ch em w =
     (if send_raises e (length (send_calls w))
      then (Some DiscordException, w\<lparr>send_calls := send_calls w @ [(ch, em)]\<rparr>)
      else (None, w\<lparr>send_calls := send_calls w @ [(ch, em)]\<rparr>))"

text \<open>
  \<^verbatim>\<open>run_scheduled_update\<close>, with the loaded configuration, the reading of the clock in
  \<^verbatim>\<open>is_trading_hours\<close> as \<open>now\<close> and the one in \<^verbatim>\<open>create_stock_embed\<close> as \<open>now_et\<close>.
  The first component of the result is the exception that leaves the function, if any.
  \<^verbatim>\<open>not channel_id\<close> holds for \<^verbatim>\<open>None\<close> and for the id 0.
\<close>

definition run_scheduled_update ::
    "env \<Rightarrow> config \<Rightarrow> datetime \<Rightarrow> datetime \<Rightarrow> world \<Rightarrow> py_error option \<times> world" where
  "run_scheduled_update e cfg now now_et w =
     (case channel_id cfg of
        None \<Rightarrow> (None, w)
      | Some cid \<Rightarrow>
          if cid = 0 \<or> stocks cfg = [] then (None, w)
          else if \<not> is_trading_hours now then (None, w)
          else (case get_channel e cid of
                  None \<Rightarrow> (None, w)
                | Some ch \<Rightarrow>
                    (case fetch_all_stocks e (stocks cfg) w of
                       (stocks_data, w1) \<Rightarrow>
                         channel_send e ch (create_stock_embed e now_et stocks_data) w1)))"

subsection \<open>Concrete worlds\<close>

definition aapl_quote :: quote where
  "aapl_quote =
     \<lparr>ticker = ''AAPL'', price = 190, change = 2, change_percent = 1, year_high = None,
      year_low = None, fifty_two_week_context = None, extended_price = None,
      extended_label = None, market_cap = None, pe_ratio = None\<rparr>"

text \<open>A provider that fails every fetch, and a clock that stands still.\<close>

definition failing_env :: env where
  "failing_env =
     \<lparr>time_time = (\<lambda>k. 1000), fetch_stock_data_raw = (\<lambda>k t. None),
      get_channel = (\<lambda>c. if c = 42 then Some (Channel 42) else None),
      send_raises = (\<lambda>k. False), format_line = (\<lambda>q. ticker q)\<rparr>"

text \<open>A provider that answers every fetch, and a clock that advances 10 seconds a reading.\<close>

definition serving_env :: env where
  "serving_env =
     \<lparr>time_time = (\<lambda>k. 1000 + 10 * real k), fetch_stock_data_raw = (\<lambda>k t. Some aapl_quote),
      get_channel = (\<lambda>c. if c = 42 then Some (Channel 42) else None),
      send_raises = (\<lambda>k. False), format_line = (\<lambda>q. ticker q)\<rparr>"

definition empty_world :: world where
  "empty_world = \<lparr>cache = Map.empty, clock_reads = 0, fetch_calls = [], send_calls = []\<rparr>"

text \<open>An entry for AAPL stored at time 1000 (fresh at 1000) and one stored at 900 (expired).\<close>

definition fresh_world :: world where
  "fresh_world =
     \<lparr>cache = [''AAPL'' \<mapsto> (aapl_quote, 1000)], clock_reads = 0, fetch_calls = [],
      send_calls = []\<rparr>"

definition stale_world :: world where
  "stale_world =
     \<lparr>cache = [''AAPL'' \<mapsto> (aapl_quote, 900)], clock_reads = 0, fetch_calls = [],
      send_calls = []\<rparr>"

definition unset_config :: config where
  "unset_config = \<lparr>channel_id = None, stocks = [''AAPL'', ''MSFT''], interval_minutes = 60\<rparr>"

definition watch_config :: config where
  "watch_config = \<lparr>channel_id = Some 42, stocks = [''AAPL'', ''MSFT''], interval_minutes = 60\<rparr>"

section \<open>Properties of the calendar evaluator and the aligner\<close>

lemma hms_secs:
  fixes h m s :: nat
  assumes "h < 24" "m < 60" "s < 60"
  shows "h * 3600 + m * 60 + s < 86400"
    and "(h * 3600 + m * 60 + s) div 3600 = h"
    and "(h * 3600 + m * 60 + s) mod 3600 div 60 = m"
    and "(h * 3600 + m * 60 + s) mod 60 = s"
proof -
  have lt: "m * 60 + s < 3600"
    using assms by linarith
  have e: "h * 3600 + m * 60 + s = (m * 60 + s) + h * 3600"
    by simp
  show "h * 3600 + m * 60 + s < 86400"
    using assms by linarith
  show "(h * 3600 + m * 60 + s) div 3600 = h"
    unfolding e using lt by (simp only: div_mult_self1 div_less)
  have r: "(h * 3600 + m * 60 + s) mod 3600 = m * 60 + s"
    unfolding e using lt by (simp only: mod_mult_self1 mod_less)
  have e2: "m * 60 + s = s + m * 60"
    by simp
  show "(h * 3600 + m * 60 + s) mod 3600 div 60 = m"
    unfolding r e2 using assms by (simp only: div_mult_self1 div_less)
  have e3: "h * 3600 + m * 60 + s = s + (h * 60 + m) * 60"
    by simp
  show "(h * 3600 + m * 60 + s) mod 60 = s"
    unfolding e3 using assms by (simp only: mod_mult_self1 mod_less)
qed

lemma plus_one_day:
  assumes "hour d < 24" "minute d < 60" "second d < 60" "ordinal d < MAXORDINAL"
  shows "plus_timedelta d 1 0 = Inr (d\<lparr>ordinal := Suc (ordinal d)\<rparr>)"
  using assms hms_secs [OF assms(1-3)]
  by (simp add: plus_timedelta_def Let_def)

lemma mod7_Suc: "(Suc n + 6) mod 7 = (if (n + 6) mod 7 = 6 then 0 else Suc ((n + 6) mod 7))"
  by presburger

lemma weekday_Suc:
  "weekday (d\<lparr>ordinal := Suc (ordinal d)\<rparr>) = (if weekday d = 6 then 0 else Suc (weekday d))"
  using mod7_Suc [of "ordinal d"] by (simp add: weekday_def)

lemma weekday_less_7: "weekday d < 7"
  by (simp add: weekday_def)

lemma skip_weekends_result:
  assumes "hour d < 24" "minute d < 60" "second d < 60" "ordinal d + 2 \<le> MAXORDINAL"
  shows "skip_weekends d = Inr (d\<lparr>ordinal := ordinal d + weekend_shift (weekday d)\<rparr>)"
proof -
  let ?d1 = "d\<lparr>ordinal := Suc (ordinal d)\<rparr>"
  let ?d2 = "?d1\<lparr>ordinal := Suc (ordinal ?d1)\<rparr>"
  have p1: "plus_timedelta d 1 0 = Inr ?d1"
    using assms by (intro plus_one_day) auto
  have p2: "plus_timedelta ?d1 1 0 = Inr ?d2"
    using assms by (intro plus_one_day) auto
  have w1: "weekday ?d1 = (if weekday d = 6 then 0 else Suc (weekday d))"
    by (rule weekday_Suc)
  have w2: "weekday ?d2 = (if weekday ?d1 = 6 then 0 else Suc (weekday ?d1))"
    by (rule weekday_Suc)
  consider "weekday d \<le> 4" | "weekday d = 5" | "weekday d = 6"
    using weekday_less_7 [of d] by linarith
  then show ?thesis
  proof cases
    case 1
    then show ?thesis by (subst skip_weekends.simps) (simp add: weekend_shift_def)
  next
    case 2
    have "skip_weekends d = skip_weekends ?d1"
      using 2 p1 by (subst skip_weekends.simps) simp
    also have "\<dots> = skip_weekends ?d2"
      using 2 w1 p2 by (subst skip_weekends.simps) simp
    also have "\<dots> = Inr ?d2"
      using 2 w1 w2 by (subst skip_weekends.simps) simp
    finally show ?thesis using 2 by (simp add: weekend_shift_def)
  next
    case 3
    have "skip_weekends d = skip_weekends ?d1"
      using 3 p1 by (subst skip_weekends.simps) simp
    also have "\<dots> = Inr ?d1"
      using 3 w1 by (subst skip_weekends.simps) simp
    finally show ?thesis using 3 by (simp add: weekend_shift_def)
  qed
qed


lemma round_up_bounds:
  fixes c i x :: nat
  assumes "c * i = 1440" "x < 1440"
  shows "x < (x div i + 1) * i" and "(x div i + 1) * i \<le> 1440" and "(x div i + 1) * i mod i = 0"
proof -
  have pos: "0 < i"
    using assms(1) by (cases "i = 0") auto
  show "x < (x div i + 1) * i"
    using dividend_less_div_times [OF pos, of x] by simp
  have "x < c * i"
    using assms by simp
  then have "x div i < c"
    by (rule less_mult_imp_div_less)
  then have "x div i + 1 \<le> c"
    by simp
  then have "(x div i + 1) * i \<le> c * i"
    by (rule mult_le_mono1)
  then show "(x div i + 1) * i \<le> 1440"
    using assms(1) by simp
  show "(x div i + 1) * i mod i = 0"
    by simp
qed

lemma preset_divides_day:
  assumes "i \<in> INTERVAL_PRESETS"
  shows "\<exists>c. c * i = 1440"
proof -
  have "96 * (15::nat) = 1440" "48 * (30::nat) = 1440" "24 * (60::nat) = 1440"
       "12 * (120::nat) = 1440" "6 * (240::nat) = 1440"
    by simp_all
  then show ?thesis
    using assms unfolding INTERVAL_PRESETS_def by blast
qed

lemma minutes_secs:
  fixes n :: nat
  shows "n * 60 div 3600 = n div 60" and "n * 60 mod 3600 div 60 = n mod 60" and "n * 60 mod 60 = 0"
proof -
  show "n * 60 div 3600 = n div 60"
    using div_mult_mult2 [of 60 n 60] by simp
  have "n * 60 mod 3600 = (n mod 60) * 60"
    using mod_mult_mult2 [of n 60 60] by simp
  then show "n * 60 mod 3600 div 60 = n mod 60"
    by simp
  show "n * 60 mod 60 = 0"
    by simp
qed

lemma candidate_time:
  assumes "n \<le> 1440" "1 \<le> ordinal now" "ordinal now < MAXORDINAL"
  shows "plus_timedelta (now\<lparr>hour := 0, minute := 0, second := 0, microsecond := 0\<rparr>) 0 n =
           Inr (if n = 1440
                then \<lparr>ordinal = Suc (ordinal now), hour = 0, minute = 0, second = 0, microsecond = 0\<rparr>
                else \<lparr>ordinal = ordinal now, hour = n div 60, minute = n mod 60, second = 0,
                       microsecond = 0\<rparr>)"
proof (cases "n = 1440")
  case True
  then show ?thesis
    using assms by (simp add: plus_timedelta_def Let_def)
next
  case False
  then have "n * 60 < 86400"
    using assms by linarith
  then show ?thesis
    using False assms minutes_secs [of n] by (simp add: plus_timedelta_def Let_def)
qed


lemma next_interval_minutes_bounds:
  assumes "i \<in> INTERVAL_PRESETS" "hour now < 24" "minute now < 60"
  shows "hour now * 60 + minute now < next_interval_minutes i now"
    and "next_interval_minutes i now \<le> 1440"
    and "next_interval_minutes i now mod i = 0"
proof -
  obtain c where c: "c * i = 1440"
    using preset_divides_day [OF assms(1)] by blast
  have x: "hour now * 60 + minute now < 1440"
    using assms by linarith
  show "hour now * 60 + minute now < next_interval_minutes i now"
    unfolding next_interval_minutes_def by (rule round_up_bounds(1) [OF c x])
  show "next_interval_minutes i now \<le> 1440"
    unfolding next_interval_minutes_def by (rule round_up_bounds(2) [OF c x])
  show "next_interval_minutes i now mod i = 0"
    unfolding next_interval_minutes_def by (rule round_up_bounds(3) [OF c x])
qed

lemma hour_ge_20: "20 \<le> n div 60 \<longleftrightarrow> 1200 \<le> (n::nat)"
  using less_eq_div_iff_mult_less_eq [of 60 20 n] by simp

lemma get_next_interval_time_result:
  assumes "i \<in> INTERVAL_PRESETS" "valid_datetime now" "ordinal now + 3 \<le> MAXORDINAL"
  shows "get_next_interval_time i now =
           Inr (let n = next_interval_minutes i now in
                if 1200 \<le> n \<and> n < 1440
                then \<lparr>ordinal = Suc (ordinal now) + weekend_shift ((Suc (ordinal now) + 6) mod 7),
                       hour = 4, minute = 0, second = 0, microsecond = 0\<rparr>
                else if n = 1440
                then \<lparr>ordinal = Suc (ordinal now), hour = 0, minute = 0, second = 0, microsecond = 0\<rparr>
                else \<lparr>ordinal = ordinal now, hour = n div 60, minute = n mod 60, second = 0,
                       microsecond = 0\<rparr>)"
proof -
  define n where "n = next_interval_minutes i now"
  have v: "hour now < 24" "minute now < 60" "1 \<le> ordinal now" "ordinal now < MAXORDINAL"
    using assms(2,3) by (simp_all add: valid_datetime_def)
  have n1440: "n \<le> 1440"
    unfolding n_def by (rule next_interval_minutes_bounds(2) [OF assms(1) v(1,2)])
  have i0: "i \<noteq> 0"
    using assms(1) by (auto simp: INTERVAL_PRESETS_def)
  let ?cand = "if n = 1440
                then \<lparr>ordinal = Suc (ordinal now), hour = 0, minute = 0, second = 0, microsecond = 0\<rparr>
                else \<lparr>ordinal = ordinal now, hour = n div 60, minute = n mod 60, second = 0,
                       microsecond = 0\<rparr>"
  have cand: "plus_timedelta (now\<lparr>hour := 0, minute := 0, second := 0, microsecond := 0\<rparr>) 0 n
                = Inr ?cand"
    by (rule candidate_time [OF n1440 v(3,4)])
  have unfold: "get_next_interval_time i now =
                  (if hour ?cand \<ge> 20
                   then (case plus_timedelta (?cand\<lparr>hour := 4, minute := 0\<rparr>) 1 0 of
                           Inl e \<Rightarrow> Inl e
                         | Inr rolled \<Rightarrow> skip_weekends rolled)
                   else Inr ?cand)"
    using i0 cand
    by (simp only: get_next_interval_time_def Let_def n_def next_interval_minutes_def
          if_False sum.case)
  show ?thesis
  proof (cases "1200 \<le> n \<and> n < 1440")
    case True
    let ?four = "\<lparr>ordinal = ordinal now, hour = 4, minute = 0, second = 0, microsecond = 0\<rparr>"
    let ?rolled = "?four\<lparr>ordinal := Suc (ordinal ?four)\<rparr>"
    have c4: "?cand\<lparr>hour := 4, minute := 0\<rparr> = ?four"
      using True by simp
    have h: "hour ?cand \<ge> 20"
      using True by (simp add: hour_ge_20)
    have p: "plus_timedelta ?four 1 0 = Inr ?rolled"
      using v(4) by (intro plus_one_day) simp_all
    have s: "skip_weekends ?rolled =
               Inr (?rolled\<lparr>ordinal := ordinal ?rolled + weekend_shift (weekday ?rolled)\<rparr>)"
      using assms(3) by (intro skip_weekends_result) simp_all
    have "get_next_interval_time i now =
            Inr (?rolled\<lparr>ordinal := ordinal ?rolled + weekend_shift (weekday ?rolled)\<rparr>)"
      unfolding unfold using h by (simp only: c4 p s if_True sum.case)
    then show ?thesis
      using True by (simp add: n_def [symmetric] weekday_def)
  next
    case False
    then have h: "\<not> hour ?cand \<ge> 20"
      using n1440 by (auto simp: hour_ge_20)
    have "get_next_interval_time i now = Inr ?cand"
      unfolding unfold using h by (simp only: if_False)
    then show ?thesis
      using False by (simp add: n_def [symmetric])
  qed
qed


text \<open>
  Claim C3. \<^verbatim>\<open>is_trading_hours\<close> is true exactly when the weekday of the Eastern-time
  reading is Monday to Friday (0 to 4) and its hour is at least 4 and below 20. It is
  false on every Saturday and Sunday instant whatever the hour, true on Wednesday at
  04:00:00 and false on Wednesday at 20:00:00.
\<close>

theorem is_trading_hours_iff:
  "(is_trading_hours now \<longleftrightarrow> weekday now \<le> 4 \<and> 4 \<le> hour now \<and> hour now < 20) \<and>
   (5 \<le> weekday now \<longrightarrow> \<not> is_trading_hours now) \<and>
   weekday wed_0400 = 2 \<and> is_trading_hours wed_0400 \<and>
   weekday wed_2000 = 2 \<and> \<not> is_trading_hours wed_2000"
  by (auto simp: is_trading_hours_def weekday_def wed_0400_def wed_2000_def)

theorem is_trading_hours_iff_witness:
  "5 \<le> weekday sat_1000 \<and> \<not> is_trading_hours sat_1000"
  using is_trading_hours_iff [of sat_1000] by (simp add: weekday_def sat_1000_def)

text \<open>
  Claim C10. For every preset interval and every reading \<open>now\<close> (up to 9999-12-28, so
  that no date leaves the range of \<^verbatim>\<open>datetime\<close>), \<^verbatim>\<open>get_next_interval_time\<close> returns
  an instant whose second and microsecond are zero, on the normal path and on the 20:00
  rollover path alike.
\<close>

theorem next_time_whole_minute:
  assumes "i \<in> INTERVAL_PRESETS" "valid_datetime now" "ordinal now + 3 \<le> MAXORDINAL"
  shows "\<exists>r. get_next_interval_time i now = Inr r \<and> second r = 0 \<and> microsecond r = 0"
  unfolding get_next_interval_time_result [OF assms] by (simp add: Let_def)

lemma fri_1930_ok:
  "60 \<in> INTERVAL_PRESETS" "valid_datetime fri_1930" "ordinal fri_1930 + 3 \<le> MAXORDINAL"
  by (simp_all add: INTERVAL_PRESETS_def valid_datetime_def fri_1930_def MAXORDINAL_def)

lemma fri_1930_next: "get_next_interval_time 60 fri_1930 = Inr mon_0400"
  unfolding get_next_interval_time_result [OF fri_1930_ok]
  by (simp add: Let_def next_interval_minutes_def fri_1930_def mon_0400_def weekend_shift_def)

theorem next_time_whole_minute_witness:
  "60 \<in> INTERVAL_PRESETS \<and> valid_datetime fri_1930 \<and> ordinal fri_1930 + 3 \<le> MAXORDINAL \<and>
   get_next_interval_time 60 fri_1930 = Inr mon_0400 \<and>
   second mon_0400 = 0 \<and> microsecond mon_0400 = 0"
proof -
  obtain r where r: "get_next_interval_time 60 fri_1930 = Inr r \<and> second r = 0 \<and> microsecond r = 0"
    using next_time_whole_minute [OF fri_1930_ok] ..
  have "r = mon_0400"
    using r by (simp add: fri_1930_next)
  then show ?thesis
    using r fri_1930_ok by simp
qed

lemma later_same_day:
  fixes h m n :: nat
  assumes "h * 60 + m < n" "m < 60"
  shows "h < n div 60 \<or> (h = n div 60 \<and> m < n mod 60)"
proof -
  have "n = n div 60 * 60 + n mod 60"
    by simp
  moreover have "n mod 60 < 60"
    by simp
  ultimately show ?thesis
    using assms by linarith
qed

lemma rollover_aligned:
  assumes "i \<in> INTERVAL_PRESETS"
  shows "240 mod i = 0"
  using assms by (auto simp: INTERVAL_PRESETS_def)

text \<open>
  Claim C2. For every preset interval and every reading \<open>now\<close> (up to 9999-12-28),
  \<^verbatim>\<open>get_next_interval_time\<close> returns an instant strictly later than \<open>now\<close>, and either
  the minutes from that instant's own midnight are an exact multiple of the interval, or
  the instant is at hour 4 of a weekday and was reached by the 20:00 rollover.
\<close>

theorem next_time_later_and_aligned:
  assumes "i \<in> INTERVAL_PRESETS" "valid_datetime now" "ordinal now + 3 \<le> MAXORDINAL"
  shows "\<exists>r. get_next_interval_time i now = Inr r \<and> dt_less now r \<and>
           (((hour r * 60 + minute r) mod i = 0 \<and> second r = 0 \<and> microsecond r = 0) \<or>
            (hour r = 4 \<and> weekday r \<le> 4 \<and> 1200 \<le> next_interval_minutes i now))"
proof -
  define n where "n = next_interval_minutes i now"
  have v: "hour now < 24" "minute now < 60"
    using assms(2) by (simp_all add: valid_datetime_def)
  note b = next_interval_minutes_bounds [OF assms(1) v, folded n_def]
  have same: "hour now < n div 60 \<or> (hour now = n div 60 \<and> minute now < n mod 60)"
    by (rule later_same_day [OF b(1) v(2)])
  have al: "(n div 60 * 60 + n mod 60) mod i = 0"
    using b(3) by simp
  show ?thesis
    unfolding get_next_interval_time_result [OF assms]
    using same al rollover_aligned [OF assms(1)]
    by (auto simp: Let_def n_def [symmetric] dt_less_def)
qed

theorem next_time_later_and_aligned_witness:
  "60 \<in> INTERVAL_PRESETS \<and> valid_datetime fri_1930 \<and> ordinal fri_1930 + 3 \<le> MAXORDINAL \<and>
   get_next_interval_time 60 fri_1930 = Inr mon_0400 \<and> dt_less fri_1930 mon_0400 \<and>
   (((hour mon_0400 * 60 + minute mon_0400) mod 60 = 0 \<and> second mon_0400 = 0 \<and>
     microsecond mon_0400 = 0) \<or>
    (hour mon_0400 = 4 \<and> weekday mon_0400 \<le> 4 \<and> 1200 \<le> next_interval_minutes 60 fri_1930))"
proof -
  obtain r where r: "get_next_interval_time 60 fri_1930 = Inr r \<and> dt_less fri_1930 r \<and>
      (((hour r * 60 + minute r) mod 60 = 0 \<and> second r = 0 \<and> microsecond r = 0) \<or>
       (hour r = 4 \<and> weekday r \<le> 4 \<and> 1200 \<le> next_interval_minutes 60 fri_1930))"
    using next_time_later_and_aligned [OF fri_1930_ok] ..
  have "r = mon_0400"
    using r by (simp add: fri_1930_next)
  then show ?thesis
    using r fri_1930_ok by simp
qed

text \<open>
  Claim C1, as stated, fails: on Saturday 2024-01-06 at 10:00 with the 60-minute preset
  the aligned candidate is 11:00 of the same Saturday, its hour is below 20, and it is
  returned as it is.
\<close>

theorem next_time_weekend_counterexample:
  "60 \<in> INTERVAL_PRESETS \<and> valid_datetime sat_1000 \<and>
   get_next_interval_time 60 sat_1000 = Inr sat_1100 \<and> weekday sat_1100 = 5"
  by (simp add: INTERVAL_PRESETS_def valid_datetime_def get_next_interval_time_def
      plus_timedelta_def Let_def sat_1000_def sat_1100_def weekday_def MAXORDINAL_def)

text \<open>
  Claim C1, amended. The weekend loop runs on the rollover path only. For every preset
  interval and every reading \<open>now\<close> (up to 9999-12-28) the result falls on Monday to
  Friday exactly when the rollover is taken (the candidate's hour is 20 or later), or the
  candidate is before 20:00 on the date of \<open>now\<close> and that date is Monday to Friday, or
  the candidate is the next midnight and \<open>now\<close> is on Sunday to Thursday.
\<close>

theorem next_time_weekday_iff:
  assumes "i \<in> INTERVAL_PRESETS" "valid_datetime now" "ordinal now + 3 \<le> MAXORDINAL"
  shows "\<exists>r. get_next_interval_time i now = Inr r \<and>
           (weekday r \<le> 4 \<longleftrightarrow>
              (1200 \<le> next_interval_minutes i now \<and> next_interval_minutes i now < 1440) \<or>
              (next_interval_minutes i now < 1200 \<and> weekday now \<le> 4) \<or>
              (next_interval_minutes i now = 1440 \<and> (weekday now < 4 \<or> weekday now = 6)))"
proof -
  define n where "n = next_interval_minutes i now"
  define w where "w = weekday now"
  have v: "hour now < 24" "minute now < 60"
    using assms(2) by (simp_all add: valid_datetime_def)
  have n1440: "n \<le> 1440"
    unfolding n_def by (rule next_interval_minutes_bounds(2) [OF assms(1) v])
  have w7: "w < 7"
    unfolding w_def by (rule weekday_less_7)
  have next_day: "(Suc (ordinal now) + 6) mod 7 = (if w = 6 then 0 else Suc w)"
    unfolding w_def weekday_def by (rule mod7_Suc)
  have rolled: "(Suc (ordinal now) + weekend_shift ((Suc (ordinal now) + 6) mod 7) + 6) mod 7 \<le> 4"
  proof -
    consider "w \<le> 3" | "w = 4" | "w = 5" | "w = 6"
      using w7 by linarith
    then show ?thesis
    proof cases
      case 1
      then show ?thesis using next_day by (simp add: weekend_shift_def)
    next
      case 2
      then have "(Suc (ordinal now) + 6) mod 7 = 5"
        using next_day by simp
      then show ?thesis by (simp add: weekend_shift_def) presburger
    next
      case 3
      then have "(Suc (ordinal now) + 6) mod 7 = 6"
        using next_day by simp
      then show ?thesis by (simp add: weekend_shift_def) presburger
    next
      case 4
      then show ?thesis using next_day by (simp add: weekend_shift_def)
    qed
  qed
  have wnow: "(ordinal now + 6) mod 7 = w"
    by (simp add: w_def weekday_def)
  show ?thesis
    unfolding get_next_interval_time_result [OF assms]
    using n1440 rolled next_day w7
    by (auto simp: Let_def n_def [symmetric] weekday_def wnow)
qed

theorem next_time_weekday_iff_witness:
  "60 \<in> INTERVAL_PRESETS \<and> valid_datetime fri_1930 \<and> ordinal fri_1930 + 3 \<le> MAXORDINAL \<and>
   get_next_interval_time 60 fri_1930 = Inr mon_0400 \<and>
   next_interval_minutes 60 fri_1930 = 1200 \<and> weekday mon_0400 = 0"
proof -
  have n: "next_interval_minutes 60 fri_1930 = 1200"
    by (simp add: next_interval_minutes_def fri_1930_def)
  obtain r where "get_next_interval_time 60 fri_1930 = Inr r \<and>
           (weekday r \<le> 4 \<longleftrightarrow>
              (1200 \<le> next_interval_minutes 60 fri_1930 \<and> next_interval_minutes 60 fri_1930 < 1440) \<or>
              (next_interval_minutes 60 fri_1930 < 1200 \<and> weekday fri_1930 \<le> 4) \<or>
              (next_interval_minutes 60 fri_1930 = 1440 \<and> (weekday fri_1930 < 4 \<or> weekday fri_1930 = 6)))"
    using next_time_weekday_iff [OF fri_1930_ok] ..
  then have r: "get_next_interval_time 60 fri_1930 = Inr r \<and> weekday r \<le> 4"
    by (simp add: n)
  have "r = mon_0400"
    using r by (simp add: fri_1930_next)
  moreover have "weekday mon_0400 = 0"
    by (simp add: weekday_def mon_0400_def)
  ultimately show ?thesis
    using r n fri_1930_ok by simp
qed

section \<open>Properties of the cache and of the update cycle\<close>

lemma upper_char_idem: "upper_char (upper_char c) = upper_char c"
proof (cases "97 \<le> (of_char c :: nat) \<and> (of_char c :: nat) \<le> 122")
  case True
  then have a: "97 \<le> (of_char c :: nat)" and b: "(of_char c :: nat) \<le> 122"
    by simp_all
  have "(of_char c :: nat) - 32 < 256"
    using b by linarith
  then have oc: "(of_char (char_of ((of_char c :: nat) - 32)) :: nat) = of_char c - 32"
    by simp
  have no: "\<not> 97 \<le> (of_char c :: nat) - 32"
    using b by linarith
  have "upper_char c = char_of ((of_char c :: nat) - 32)"
    using a b by (simp add: upper_char_def)
  moreover have "upper_char (char_of ((of_char c :: nat) - 32)) = char_of ((of_char c :: nat) - 32)"
    unfolding upper_char_def oc using no by simp
  ultimately show ?thesis
    by simp
next
  case False
  then have "upper_char c = c"
    by (auto simp: upper_char_def)
  then show ?thesis
    by simp
qed

lemma upper_idem: "upper (upper s) = upper s"
  by (simp add: upper_def upper_char_idem)

lemma upper_aapl: "upper ''aapl'' = ''AAPL''"
  by code_simp

lemma upper_AAPL: "upper ''AAPL'' = ''AAPL''"
  by code_simp

lemma upper_MSFT: "upper ''MSFT'' = ''MSFT''"
  by (simp add: upper_def upper_char_def)

lemma fetch_fresh_calls:
  "fetch_calls (snd (fetch_fresh e t w)) = fetch_calls w @ [t]"
  by (simp add: fetch_fresh_def call_fetch_stock_data_raw_def call_time_time_def
      split: option.splits)

lemma fetch_fresh_sends:
  "send_calls (snd (fetch_fresh e t w)) = send_calls w"
  by (simp add: fetch_fresh_def call_fetch_stock_data_raw_def call_time_time_def
      split: option.splits)

lemma fetch_fresh_frame:
  "k \<noteq> t \<Longrightarrow> cache (snd (fetch_fresh e t w)) k = cache w k"
  by (simp add: fetch_fresh_def call_fetch_stock_data_raw_def call_time_time_def
      split: option.splits)

lemma fetch_fresh_None:
  assumes "fetch_stock_data_raw e (length (fetch_calls w)) t = None"
  shows "fetch_fresh e t w = (None, w\<lparr>fetch_calls := fetch_calls w @ [t]\<rparr>)"
  using assms by (simp add: fetch_fresh_def call_fetch_stock_data_raw_def)

lemma fetch_fresh_Some:
  assumes "fetch_stock_data_raw e (length (fetch_calls w)) t = Some d"
  shows "fetch_fresh e t w =
           (Some d, w\<lparr>fetch_calls := fetch_calls w @ [t], clock_reads := Suc (clock_reads w),
                       cache := (cache w)(t \<mapsto> (d, time_time e (clock_reads w)))\<rparr>)"
  using assms by (simp add: fetch_fresh_def call_fetch_stock_data_raw_def call_time_time_def)

lemma get_cached_stock_hit:
  assumes "cache w (upper s) = Some (d, ts)" "time_time e (clock_reads w) - ts < CACHE_TTL"
  shows "get_cached_stock e s w = (Some d, w\<lparr>clock_reads := Suc (clock_reads w)\<rparr>)"
  using assms by (simp add: get_cached_stock_def call_time_time_def)

lemma get_cached_stock_expired:
  assumes "cache w (upper s) = Some (d, ts)" "\<not> time_time e (clock_reads w) - ts < CACHE_TTL"
  shows "get_cached_stock e s w = fetch_fresh e (upper s) (w\<lparr>clock_reads := Suc (clock_reads w)\<rparr>)"
  using assms by (simp add: get_cached_stock_def call_time_time_def)

lemma get_cached_stock_absent:
  assumes "cache w (upper s) = None"
  shows "get_cached_stock e s w = fetch_fresh e (upper s) w"
  using assms by (simp add: get_cached_stock_def)


lemma get_cached_stock_frame:
  assumes "k \<noteq> upper s"
  shows "cache (snd (get_cached_stock e s w)) k = cache w k"
proof (cases "cache w (upper s)")
  case None
  then show ?thesis
    using assms by (simp add: get_cached_stock_absent fetch_fresh_frame)
next
  case (Some p)
  obtain d ts where p: "p = (d, ts)"
    by (cases p)
  show ?thesis
  proof (cases "time_time e (clock_reads w) - ts < CACHE_TTL")
    case True
    then show ?thesis
      using Some p by (simp add: get_cached_stock_hit)
  next
    case False
    then show ?thesis
      using Some p assms by (simp add: get_cached_stock_expired fetch_fresh_frame)
  qed
qed

lemma get_cached_stock_calls:
  "fetch_calls (snd (get_cached_stock e s w)) = fetch_calls w \<or>
   fetch_calls (snd (get_cached_stock e s w)) = fetch_calls w @ [upper s]"
proof (cases "cache w (upper s)")
  case None
  then show ?thesis
    by (simp add: get_cached_stock_absent fetch_fresh_calls)
next
  case (Some p)
  obtain d ts where p: "p = (d, ts)"
    by (cases p)
  show ?thesis
  proof (cases "time_time e (clock_reads w) - ts < CACHE_TTL")
    case True
    then show ?thesis
      using Some p by (simp add: get_cached_stock_hit)
  next
    case False
    then show ?thesis
      using Some p by (simp add: get_cached_stock_expired fetch_fresh_calls)
  qed
qed

lemma get_cached_stock_sends:
  "send_calls (snd (get_cached_stock e s w)) = send_calls w"
proof (cases "cache w (upper s)")
  case None
  then show ?thesis
    by (simp add: get_cached_stock_absent fetch_fresh_sends)
next
  case (Some p)
  obtain d ts where p: "p = (d, ts)"
    by (cases p)
  show ?thesis
  proof (cases "time_time e (clock_reads w) - ts < CACHE_TTL")
    case True
    then show ?thesis
      using Some p by (simp add: get_cached_stock_hit)
  next
    case False
    then show ?thesis
      using Some p by (simp add: get_cached_stock_expired fetch_fresh_sends)
  qed
qed

lemma fetch_fresh_then_hit:
  assumes "fetch_fresh e (upper s) w = (Some d1, w1)"
    and "time_time e (clock_reads w1) - time_time e (clock_reads w1 - 1) < CACHE_TTL"
  shows "fetch_calls (snd (get_cached_stock e s w1)) = fetch_calls w @ [upper s]"
proof (cases "fetch_stock_data_raw e (length (fetch_calls w)) (upper s)")
  case None
  then show ?thesis
    using assms(1) by (simp add: fetch_fresh_None)
next
  case (Some d)
  have w1: "w1 = w\<lparr>fetch_calls := fetch_calls w @ [upper s], clock_reads := Suc (clock_reads w),
                   cache := (cache w)(upper s \<mapsto> (d, time_time e (clock_reads w)))\<rparr>"
    using assms(1) by (auto simp: fetch_fresh_Some [OF Some])
  have entry: "cache w1 (upper s) = Some (d, time_time e (clock_reads w))"
    by (simp add: w1)
  have fresh: "time_time e (clock_reads w1) - time_time e (clock_reads w) < CACHE_TTL"
    using assms(2) by (simp add: w1)
  show ?thesis
    by (simp add: get_cached_stock_hit [OF entry fresh]) (simp add: w1)
qed


lemma fetch_all_stocks_sends:
  "send_calls (snd (fetch_all_stocks e ts w)) = send_calls w"
proof (induction ts arbitrary: w)
  case Nil
  show ?case by simp
next
  case (Cons t ts)
  obtain d w1 where g: "get_cached_stock e t w = (d, w1)"
    by (cases "get_cached_stock e t w")
  obtain ds w2 where f: "fetch_all_stocks e ts w1 = (ds, w2)"
    by (cases "fetch_all_stocks e ts w1")
  have "send_calls w2 = send_calls w1"
    using Cons.IH [of w1] f by simp
  moreover have "send_calls w1 = send_calls w"
    using get_cached_stock_sends [of e t w] g by simp
  ultimately show ?case
    using g f by (simp add: get_stock_data_def)
qed

lemma fetch_all_stocks_length:
  "length (fst (fetch_all_stocks e ts w)) = length ts"
proof (induction ts arbitrary: w)
  case Nil
  show ?case by simp
next
  case (Cons t ts)
  obtain d w1 where g: "get_cached_stock e t w = (d, w1)"
    by (cases "get_cached_stock e t w")
  obtain ds w2 where f: "fetch_all_stocks e ts w1 = (ds, w2)"
    by (cases "fetch_all_stocks e ts w1")
  show ?case
    using Cons.IH [of w1] g f by (simp add: get_stock_data_def)
qed

lemma embed_lines_all_absent:
  "\<forall>d\<in>set ds. d = None \<Longrightarrow> embed_lines e ds = []"
  by (induction ds) auto

lemma create_stock_embed_all_absent:
  assumes "ds \<noteq> []" "\<forall>d\<in>set ds. d = None"
  shows "create_stock_embed e now_et ds =
           \<lparr>title_time = now_et, description = ''No valid stock data.''\<rparr>"
  using assms by (simp add: create_stock_embed_def embed_lines_all_absent)

lemma fetch_all_stocks_all_fail:
  assumes "\<forall>k t. fetch_stock_data_raw e k t = None" "\<forall>t\<in>set ts. cache w (upper t) = None"
  shows "\<forall>d\<in>set (fst (fetch_all_stocks e ts w)). d = None"
  using assms(2)
proof (induction ts arbitrary: w)
  case Nil
  show ?case by simp
next
  case (Cons t ts)
  have g: "get_cached_stock e t w = (None, w\<lparr>fetch_calls := fetch_calls w @ [upper t]\<rparr>)"
    using Cons.prems assms(1) by (simp add: get_cached_stock_absent fetch_fresh_None)
  obtain ds w2 where
    f: "fetch_all_stocks e ts (w\<lparr>fetch_calls := fetch_calls w @ [upper t]\<rparr>) = (ds, w2)"
    by (cases "fetch_all_stocks e ts (w\<lparr>fetch_calls := fetch_calls w @ [upper t]\<rparr>)")
  have "\<forall>d\<in>set ds. d = None"
    using Cons.IH [of "w\<lparr>fetch_calls := fetch_calls w @ [upper t]\<rparr>"] Cons.prems f by simp
  then show ?case
    using g f by (simp add: get_stock_data_def)
qed

text \<open>
  Claim C5. \<^verbatim>\<open>get_cached_stock\<close> uppercases the symbol before the lookup and before the
  store: a lookup for \<open>s\<close> and one for its uppercase form return the same data and leave
  the same state, no entry other than the one under the uppercase symbol is touched, and
  \<^verbatim>\<open>"aapl"\<close> and \<^verbatim>\<open>"AAPL"\<close> hit the same entry.
\<close>

theorem cache_case_invariant:
  "get_cached_stock e (upper s) w = get_cached_stock e s w \<and>
   (\<forall>k. k \<noteq> upper s \<longrightarrow> cache (snd (get_cached_stock e s w)) k = cache w k) \<and>
   get_cached_stock e ''aapl'' w = get_cached_stock e ''AAPL'' w"
proof -
  have "get_cached_stock e (upper s) w = get_cached_stock e s w"
    by (simp add: get_cached_stock_def upper_idem)
  moreover have "get_cached_stock e ''aapl'' w = get_cached_stock e ''AAPL'' w"
    by (simp only: get_cached_stock_def upper_aapl upper_AAPL)
  ultimately show ?thesis
    by (simp add: get_cached_stock_frame)
qed

theorem cache_case_invariant_witness:
  "''MSFT'' \<noteq> upper ''aapl'' \<and>
   cache (snd (get_cached_stock serving_env ''aapl'' empty_world)) ''MSFT'' =
     cache empty_world ''MSFT'' \<and>
   get_cached_stock serving_env ''aapl'' empty_world =
     get_cached_stock serving_env ''AAPL'' empty_world"
proof -
  note t = cache_case_invariant [of serving_env "''aapl''" empty_world]
  have a: "''MSFT'' \<noteq> upper ''aapl''"
    by (simp add: upper_aapl)
  have "\<forall>k. k \<noteq> upper ''aapl'' \<longrightarrow>
          cache (snd (get_cached_stock serving_env ''aapl'' empty_world)) k = cache empty_world k"
    using t by (rule conjunct1 [OF conjunct2])
  then have b: "cache (snd (get_cached_stock serving_env ''aapl'' empty_world)) ''MSFT'' =
                  cache empty_world ''MSFT''"
    using a by blast
  have c: "get_cached_stock serving_env ''aapl'' empty_world =
             get_cached_stock serving_env ''AAPL'' empty_world"
    using t by (rule conjunct2 [OF conjunct2])
  from a b c show ?thesis
    by (intro conjI)
qed

text \<open>
  Claim C6. When the fetch a lookup makes yields \<^verbatim>\<open>None\<close>, the cache is left exactly as
  it was (no entry is created, and an earlier entry, expired or not, stays in place), and
  the lookup that invoked the fetch returns \<^verbatim>\<open>None\<close>.
\<close>

theorem failed_fetch_keeps_cache:
  assumes "fetch_stock_data_raw e (length (fetch_calls w)) (upper s) = None"
  shows "cache (snd (get_cached_stock e s w)) = cache w \<and>
         (fetch_calls (snd (get_cached_stock e s w)) \<noteq> fetch_calls w \<longrightarrow>
            fst (get_cached_stock e s w) = None)"
proof (cases "cache w (upper s)")
  case None
  then show ?thesis
    using assms by (simp add: get_cached_stock_absent fetch_fresh_None)
next
  case (Some p)
  obtain d ts where p: "p = (d, ts)"
    by (cases p)
  show ?thesis
  proof (cases "time_time e (clock_reads w) - ts < CACHE_TTL")
    case True
    then show ?thesis
      using Some p by (simp add: get_cached_stock_hit)
  next
    case False
    then show ?thesis
      using Some p assms by (simp add: get_cached_stock_expired fetch_fresh_None)
  qed
qed

lemma stale_lookup_fails:
  "get_cached_stock failing_env ''aapl'' stale_world =
     (None, stale_world\<lparr>clock_reads := 1, fetch_calls := [''AAPL'']\<rparr>)"
  by (simp add: get_cached_stock_def upper_aapl stale_world_def failing_env_def Let_def
      call_time_time_def CACHE_TTL_def fetch_fresh_def call_fetch_stock_data_raw_def)

theorem failed_fetch_keeps_cache_witness:
  "fetch_stock_data_raw failing_env (length (fetch_calls stale_world)) (upper ''aapl'') = None \<and>
   fetch_calls (snd (get_cached_stock failing_env ''aapl'' stale_world)) \<noteq> fetch_calls stale_world \<and>
   fst (get_cached_stock failing_env ''aapl'' stale_world) = None \<and>
   cache (snd (get_cached_stock failing_env ''aapl'' stale_world)) ''AAPL'' = Some (aapl_quote, 900)"
proof -
  have f: "fetch_stock_data_raw failing_env (length (fetch_calls stale_world)) (upper ''aapl'') = None"
    by (simp add: failing_env_def)
  have c: "fetch_calls (snd (get_cached_stock failing_env ''aapl'' stale_world)) \<noteq>
             fetch_calls stale_world"
    by (simp add: stale_lookup_fails) (simp add: stale_world_def)
  have n: "fst (get_cached_stock failing_env ''aapl'' stale_world) = None"
    by (simp add: stale_lookup_fails)
  have k: "cache (snd (get_cached_stock failing_env ''aapl'' stale_world)) = cache stale_world"
    using failed_fetch_keeps_cache [OF f] by (rule conjunct1)
  have s: "cache (snd (get_cached_stock failing_env ''aapl'' stale_world)) ''AAPL'' =
             Some (aapl_quote, 900)"
    unfolding k by (simp add: stale_world_def)
  from f c n s show ?thesis
    by blast
qed

text \<open>
  Claim C7. One update cycle is a no-op when the loaded configuration has no channel id
  (\<^verbatim>\<open>None\<close>, or the falsy id 0) or an empty watch-list, or \<^verbatim>\<open>is_trading_hours\<close> is false,
  or the channel cannot be resolved: the cycle returns normally, the state is unchanged,
  and it makes no fetch call and no send.
\<close>

theorem gated_update_noop:
  assumes "channel_id cfg = None \<or> channel_id cfg = Some 0 \<or> stocks cfg = [] \<or>
           \<not> is_trading_hours now \<or>
           (\<exists>cid. channel_id cfg = Some cid \<and> get_channel e cid = None)"
  shows "run_scheduled_update e cfg now now_et w = (None, w) \<and>
         fetch_calls (snd (run_scheduled_update e cfg now now_et w)) = fetch_calls w \<and>
         send_calls (snd (run_scheduled_update e cfg now now_et w)) = send_calls w"
proof -
  have "run_scheduled_update e cfg now now_et w = (None, w)"
    using assms by (auto simp: run_scheduled_update_def split: option.splits)
  then show ?thesis
    by simp
qed

theorem gated_update_noop_witness:
  "channel_id unset_config = None \<and>
   run_scheduled_update serving_env unset_config wed_1000 wed_1000 empty_world = (None, empty_world) \<and>
   \<not> is_trading_hours sat_1000 \<and>
   run_scheduled_update serving_env watch_config sat_1000 sat_1000 empty_world = (None, empty_world)"
proof -
  have a: "channel_id unset_config = None"
    by (simp add: unset_config_def)
  have b: "\<not> is_trading_hours sat_1000"
    by (simp add: is_trading_hours_def weekday_def sat_1000_def)
  have "run_scheduled_update serving_env unset_config wed_1000 wed_1000 empty_world = (None, empty_world)"
    using gated_update_noop [of unset_config wed_1000 serving_env wed_1000 empty_world] a by blast
  moreover have "run_scheduled_update serving_env watch_config sat_1000 sat_1000 empty_world = (None, empty_world)"
    using gated_update_noop [of watch_config sat_1000 serving_env sat_1000 empty_world] b by blast
  ultimately show ?thesis
    using a b by blast
qed

text \<open>
  Claim C8. When every gate passes and every entry of the fetched batch is \<^verbatim>\<open>None\<close>, the
  cycle makes exactly one send, and its embed has the description
  \<^verbatim>\<open>No valid stock data.\<close>
\<close>

theorem all_absent_update_sends_empty_state:
  assumes "channel_id cfg = Some cid" "cid \<noteq> 0" "stocks cfg \<noteq> []" "is_trading_hours now"
    and "get_channel e cid = Some ch"
    and "\<forall>d\<in>set (fst (fetch_all_stocks e (stocks cfg) w)). d = None"
  shows "send_calls (snd (run_scheduled_update e cfg now now_et w)) =
           send_calls w @ [(ch, \<lparr>title_time = now_et, description = ''No valid stock data.''\<rparr>)]"
proof -
  obtain ds w1 where f: "fetch_all_stocks e (stocks cfg) w = (ds, w1)"
    by (cases "fetch_all_stocks e (stocks cfg) w")
  have "length ds = length (stocks cfg)"
    using fetch_all_stocks_length [of e "stocks cfg" w] f by simp
  then have ne: "ds \<noteq> []"
    using assms(3) by auto
  have absent: "\<forall>d\<in>set ds. d = None"
    using assms(6) f by simp
  have em: "create_stock_embed e now_et ds =
              \<lparr>title_time = now_et, description = ''No valid stock data.''\<rparr>"
    by (rule create_stock_embed_all_absent [OF ne absent])
  have s: "send_calls w1 = send_calls w"
    using fetch_all_stocks_sends [of e "stocks cfg" w] f by simp
  have "run_scheduled_update e cfg now now_et w =
          channel_send e ch \<lparr>title_time = now_et, description = ''No valid stock data.''\<rparr> w1"
    using assms(1-5) f em by (simp add: run_scheduled_update_def)
  then show ?thesis
    using s by (simp add: channel_send_def)
qed

lemma failing_batch:
  "fst (fetch_all_stocks failing_env (stocks watch_config) empty_world) = [None, None]"
  by (simp add: watch_config_def get_stock_data_def get_cached_stock_def upper_AAPL upper_MSFT
      empty_world_def failing_env_def Let_def fetch_fresh_def call_fetch_stock_data_raw_def)

theorem all_absent_update_sends_empty_state_witness:
  "channel_id watch_config = Some 42 \<and> stocks watch_config = [''AAPL'', ''MSFT''] \<and>
   is_trading_hours wed_1000 \<and> get_channel failing_env 42 = Some (Channel 42) \<and>
   fst (fetch_all_stocks failing_env (stocks watch_config) empty_world) = [None, None] \<and>
   send_calls (snd (run_scheduled_update failing_env watch_config wed_1000 wed_1000 empty_world)) =
     [(Channel 42, \<lparr>title_time = wed_1000, description = ''No valid stock data.''\<rparr>)]"
proof -
  have a: "channel_id watch_config = Some 42" "(42::int) \<noteq> 0" "stocks watch_config \<noteq> []"
    by (simp_all add: watch_config_def)
  have a': "stocks watch_config = [''AAPL'', ''MSFT'']"
    by (simp add: watch_config_def)
  have b: "is_trading_hours wed_1000"
    by (simp add: is_trading_hours_def weekday_def wed_1000_def)
  have c: "get_channel failing_env 42 = Some (Channel 42)"
    by (simp add: failing_env_def)
  have d: "\<forall>d\<in>set (fst (fetch_all_stocks failing_env (stocks watch_config) empty_world)). d = None"
    by (simp add: failing_batch)
  have "send_calls (snd (run_scheduled_update failing_env watch_config wed_1000 wed_1000 empty_world)) =
          send_calls empty_world @
            [(Channel 42, \<lparr>title_time = wed_1000, description = ''No valid stock data.''\<rparr>)]"
    by (rule all_absent_update_sends_empty_state [OF a b c d])
  then have "send_calls (snd (run_scheduled_update failing_env watch_config wed_1000 wed_1000 empty_world)) =
          [(Channel 42, \<lparr>title_time = wed_1000, description = ''No valid stock data.''\<rparr>)]"
    by (simp add: empty_world_def)
  then show ?thesis
    using a(1) a' b c failing_batch by blast
qed

lemma failing_first_lookup:
  "get_cached_stock failing_env ''AAPL'' empty_world =
     (None, empty_world\<lparr>fetch_calls := [''AAPL'']\<rparr>)"
  by (simp add: get_cached_stock_def upper_AAPL empty_world_def failing_env_def Let_def
      fetch_fresh_def call_fetch_stock_data_raw_def)

lemma failing_second_lookup:
  "get_cached_stock failing_env ''AAPL'' (empty_world\<lparr>fetch_calls := [''AAPL'']\<rparr>) =
     (None, empty_world\<lparr>fetch_calls := [''AAPL'', ''AAPL'']\<rparr>)"
  by (simp add: get_cached_stock_def upper_AAPL empty_world_def failing_env_def Let_def
      fetch_fresh_def call_fetch_stock_data_raw_def)

text \<open>
  Claim C4, as stated, fails in its second part: a failed fetch is not cached, so with a
  provider that fails, two lookups of AAPL at the same clock reading, on an empty cache,
  invoke the fetch twice.
\<close>

theorem cache_two_lookups_counterexample:
  "time_time failing_env 1 - time_time failing_env 0 < CACHE_TTL \<and>
   fetch_calls empty_world = [] \<and>
   fetch_calls (snd (get_cached_stock failing_env ''AAPL''
      (snd (get_cached_stock failing_env ''AAPL'' empty_world)))) = [''AAPL'', ''AAPL'']"
  by (simp add: failing_first_lookup failing_second_lookup)
     (simp add: failing_env_def CACHE_TTL_def empty_world_def)

lemma get_cached_stock_then_within_ttl:
  assumes "get_cached_stock e s w = (Some d1, w1)"
    and "time_time e (clock_reads w1) - time_time e (clock_reads w1 - 1) < CACHE_TTL"
  shows "length (fetch_calls (snd (get_cached_stock e s w1))) \<le> length (fetch_calls w) + 1"
proof (cases "cache w (upper s)")
  case None
  then have "fetch_fresh e (upper s) w = (Some d1, w1)"
    using assms(1) by (simp add: get_cached_stock_absent)
  then show ?thesis
    using fetch_fresh_then_hit [OF _ assms(2), of s w d1] by simp
next
  case (Some p)
  obtain d ts where p: "p = (d, ts)"
    by (cases p)
  show ?thesis
  proof (cases "time_time e (clock_reads w) - ts < CACHE_TTL")
    case True
    then have "w1 = w\<lparr>clock_reads := Suc (clock_reads w)\<rparr>"
      using Some p assms(1) by (simp add: get_cached_stock_hit)
    then have "fetch_calls w1 = fetch_calls w"
      by simp
    then show ?thesis
      using get_cached_stock_calls [of e s w1] by auto
  next
    case False
    then have "fetch_fresh e (upper s) (w\<lparr>clock_reads := Suc (clock_reads w)\<rparr>) = (Some d1, w1)"
      using Some p assms(1) by (simp add: get_cached_stock_expired)
    then show ?thesis
      using fetch_fresh_then_hit [OF _ assms(2), of s "w\<lparr>clock_reads := Suc (clock_reads w)\<rparr>" d1]
      by simp
  qed
qed

text \<open>
  Claim C4, amended. If an entry exists for the symbol and less than 60 seconds have
  passed since its timestamp, \<^verbatim>\<open>get_cached_stock\<close> returns the cached data and invokes
  no fetch. Two lookups of the same symbol, the first of which returns data and the
  second of which reads the clock less than the TTL after the last clock reading of the
  first, invoke the fetch at most once. A lookup made when at least the TTL has passed
  since the entry's timestamp invokes the fetch again.
\<close>

theorem cache_ttl:
  "(cache w (upper s) = Some (d, ts) \<and> time_time e (clock_reads w) - ts < CACHE_TTL \<longrightarrow>
      fst (get_cached_stock e s w) = Some d \<and>
      fetch_calls (snd (get_cached_stock e s w)) = fetch_calls w \<and>
      cache (snd (get_cached_stock e s w)) = cache w) \<and>
   (get_cached_stock e s w = (Some q, w') \<and>
    time_time e (clock_reads w') - time_time e (clock_reads w' - 1) < CACHE_TTL \<longrightarrow>
      length (fetch_calls (snd (get_cached_stock e s w'))) \<le> length (fetch_calls w) + 1) \<and>
   (cache w (upper s) = Some (d, ts) \<and> CACHE_TTL \<le> time_time e (clock_reads w) - ts \<longrightarrow>
      fetch_calls (snd (get_cached_stock e s w)) = fetch_calls w @ [upper s])"
proof (intro conjI impI)
  assume h: "cache w (upper s) = Some (d, ts) \<and> time_time e (clock_reads w) - ts < CACHE_TTL"
  then have g: "get_cached_stock e s w = (Some d, w\<lparr>clock_reads := Suc (clock_reads w)\<rparr>)"
    by (simp add: get_cached_stock_hit)
  show "fst (get_cached_stock e s w) = Some d"
    by (simp add: g)
  show "fetch_calls (snd (get_cached_stock e s w)) = fetch_calls w"
    by (simp add: g)
  show "cache (snd (get_cached_stock e s w)) = cache w"
    by (simp add: g)
next
  assume "get_cached_stock e s w = (Some q, w') \<and>
          time_time e (clock_reads w') - time_time e (clock_reads w' - 1) < CACHE_TTL"
  then show "length (fetch_calls (snd (get_cached_stock e s w'))) \<le> length (fetch_calls w) + 1"
    using get_cached_stock_then_within_ttl by blast
next
  assume "cache w (upper s) = Some (d, ts) \<and> CACHE_TTL \<le> time_time e (clock_reads w) - ts"
  then have "cache w (upper s) = Some (d, ts)" and "\<not> time_time e (clock_reads w) - ts < CACHE_TTL"
    by simp_all
  then show "fetch_calls (snd (get_cached_stock e s w)) = fetch_calls w @ [upper s]"
    by (simp add: get_cached_stock_expired fetch_fresh_calls)
qed


lemma serving_first_lookup:
  "get_cached_stock serving_env ''aapl'' empty_world =
     (Some aapl_quote,
      \<lparr>cache = [''AAPL'' \<mapsto> (aapl_quote, 1000)], clock_reads = 1, fetch_calls = [''AAPL''],
       send_calls = []\<rparr>)"
  by (simp add: get_cached_stock_def upper_aapl empty_world_def serving_env_def Let_def
      fetch_fresh_def call_fetch_stock_data_raw_def call_time_time_def)

theorem cache_ttl_witness:
  "(cache fresh_world (upper ''aapl'') = Some (aapl_quote, 1000) \<and>
    time_time serving_env (clock_reads fresh_world) - 1000 < CACHE_TTL \<and>
    fst (get_cached_stock serving_env ''aapl'' fresh_world) = Some aapl_quote \<and>
    fetch_calls (snd (get_cached_stock serving_env ''aapl'' fresh_world)) = fetch_calls fresh_world) \<and>
   (fst (get_cached_stock serving_env ''aapl'' empty_world) = Some aapl_quote \<and>
    length (fetch_calls (snd (get_cached_stock serving_env ''aapl''
      (snd (get_cached_stock serving_env ''aapl'' empty_world))))) \<le> length (fetch_calls empty_world) + 1) \<and>
   (cache stale_world (upper ''aapl'') = Some (aapl_quote, 900) \<and>
    CACHE_TTL \<le> time_time serving_env (clock_reads stale_world) - 900 \<and>
    fetch_calls (snd (get_cached_stock serving_env ''aapl'' stale_world)) =
      fetch_calls stale_world @ [''AAPL''])"
proof -
  let ?w1 = "\<lparr>cache = [''AAPL'' \<mapsto> (aapl_quote, 1000)], clock_reads = 1,
              fetch_calls = [''AAPL''], send_calls = []\<rparr>"
  have hA: "cache fresh_world (upper ''aapl'') = Some (aapl_quote, 1000) \<and>
            time_time serving_env (clock_reads fresh_world) - 1000 < CACHE_TTL"
    by (simp add: upper_aapl fresh_world_def serving_env_def CACHE_TTL_def)
  have A: "fst (get_cached_stock serving_env ''aapl'' fresh_world) = Some aapl_quote \<and>
           fetch_calls (snd (get_cached_stock serving_env ''aapl'' fresh_world)) = fetch_calls fresh_world"
    using cache_ttl [where w = fresh_world and s = "''aapl''" and d = aapl_quote and ts = 1000
        and e = serving_env] hA
    by blast
  have hB: "get_cached_stock serving_env ''aapl'' empty_world = (Some aapl_quote, ?w1) \<and>
            time_time serving_env (clock_reads ?w1) - time_time serving_env (clock_reads ?w1 - 1)
              < CACHE_TTL"
    by (simp add: serving_first_lookup) (simp add: serving_env_def CACHE_TTL_def)
  have "length (fetch_calls (snd (get_cached_stock serving_env ''aapl'' ?w1)))
          \<le> length (fetch_calls empty_world) + 1"
    using cache_ttl [where w = empty_world and s = "''aapl''" and e = serving_env
        and q = aapl_quote and w' = ?w1] hB
    by blast
  then have B: "fst (get_cached_stock serving_env ''aapl'' empty_world) = Some aapl_quote \<and>
    length (fetch_calls (snd (get_cached_stock serving_env ''aapl''
      (snd (get_cached_stock serving_env ''aapl'' empty_world))))) \<le> length (fetch_calls empty_world) + 1"
    by (simp add: serving_first_lookup)
  have hC: "cache stale_world (upper ''aapl'') = Some (aapl_quote, 900) \<and>
            CACHE_TTL \<le> time_time serving_env (clock_reads stale_world) - 900"
    by (simp add: upper_aapl stale_world_def serving_env_def CACHE_TTL_def)
  have "fetch_calls (snd (get_cached_stock serving_env ''aapl'' stale_world)) =
          fetch_calls stale_world @ [upper ''aapl'']"
    using cache_ttl [where w = stale_world and s = "''aapl''" and d = aapl_quote and ts = 900
        and e = serving_env] hC
    by blast
  then have C: "fetch_calls (snd (get_cached_stock serving_env ''aapl'' stale_world)) =
          fetch_calls stale_world @ [''AAPL'']"
    by (simp only: upper_aapl)
  from hA A B hC C show ?thesis
    by blast
qed

end
